theory Spec2Isabelle
  imports Complex_Main "HOL-Library.AList"
begin

section \<open>Post-fire vegetation recovery: the scenario runner and its generated model\<close>

text \<open>
  The program \<^verbatim>\<open>run_scenarios.py\<close> reads a flat parameter file, generates for each of
  five scenarios a rule set (a model description handed to a simulation engine), runs the
  engine and merges the per-scenario CSV files. The development below embeds
  \<^item> the parameter parser \<^verbatim>\<open>parse_jshc\<close>,
  \<^item> the parameter extraction at the head of \<^verbatim>\<open>generate_model\<close>,
  \<^item> every rule of the generated rule set, one HOL function per rule, named as the rule's
    attribute is named in the template,
  \<^item> the aggregation \<^verbatim>\<open>combine_results\<close>.

  Numbers are exact: a Python float and an engine decimal are both read as a \<open>real\<close>, so
  rounding and overflow of floating point are outside the model. Text is ASCII.
\<close>

subsection \<open>Errors\<close>

datatype py_error =
    KeyError string
  | ValueError
  | TypeError

type_synonym 'a result = "py_error + 'a"

definition bind_result :: "'a result \<Rightarrow> ('a \<Rightarrow> 'b result) \<Rightarrow> 'b result" where
  "bind_result r f = (case r of Inl e \<Rightarrow> Inl e | Inr v \<Rightarrow> f v)"

subsection \<open>Scenarios\<close>



subsection \<open>The parameters \<^verbatim>\<open>generate_model\<close> extracts\<close>

text \<open>
  One field per local variable of \<^verbatim>\<open>generate_model\<close>. The variables read through
  \<^verbatim>\<open>int(...)\<close> are integers; \<^verbatim>\<open>high_threshold\<close>, \<^verbatim>\<open>med_threshold\<close> and
  \<^verbatim>\<open>tree_suppression\<close> keep the parsed float.
\<close>

record params =
  total_steps :: int
  initial_trees :: int
  max_trees :: int
  seedling_to_juvenile :: int
  juvenile_to_adult :: int
  seedling_mortality :: int
  juvenile_mortality :: int
  adult_mortality :: int
  seedling_invasive_pressure :: int
  invasive_pressure_threshold :: int
  fire_high_seedling :: int
  fire_high_juvenile :: int
  fire_high_adult :: int
  fire_med_seedling :: int
  fire_med_juvenile :: int
  fire_med_adult :: int
  fire_low_seedling :: int
  fire_low_juvenile :: int
  fire_low_adult :: int
  high_threshold :: real
  med_threshold :: real
  baseline_invasive :: int
  fire_high_invasive :: int
  fire_med_invasive :: int
  fire_low_invasive :: int
  establishment_threshold :: int
  base_growth :: int
  post_fire_bonus :: int
  post_fire_duration :: int
  tree_suppression :: real
  removal_duration :: int
  age_min :: int
  age_max :: int

subsection \<open>The scenario-dependent rule fragments (lines 107--123)\<close>

datatype stage = Seedling | Juvenile | Adult

text \<open>
  \<^verbatim>\<open>fire_severity_init\<close>: with fire the patch reads its severity from the external
  raster (the argument \<open>external_data\<close>), without fire the rule is the constant 0.
\<close>

definition fire_severity_init :: "bool \<Rightarrow> real \<Rightarrow> real" where
  "fire_severity_init has_fire external_data = (if has_fire then external_data else 0)"

text \<open>
  \<^verbatim>\<open>fire_mortality\<close>: the nested conditional of lines 109--116, read with
  \<^verbatim>\<open>here.fireSeverity\<close> and \<^verbatim>\<open>current.state\<close> as arguments; \<^verbatim>\<open>0 percent\<close> without fire.
\<close>

definition fire_mortality :: "params \<Rightarrow> bool \<Rightarrow> real \<Rightarrow> stage \<Rightarrow> real" where
  "fire_mortality p has_fire fireSeverity st =
    (if has_fire then
       (if fireSeverity > high_threshold p \<and> st = Seedling then of_int (fire_high_seedling p)
        else if fireSeverity > high_threshold p \<and> st = Juvenile then of_int (fire_high_juvenile p)
        else if fireSeverity > high_threshold p \<and> st = Adult then of_int (fire_high_adult p)
        else if fireSeverity > med_threshold p \<and> st = Seedling then of_int (fire_med_seedling p)
        else if fireSeverity > med_threshold p \<and> st = Juvenile then of_int (fire_med_juvenile p)
        else if fireSeverity > med_threshold p \<and> st = Adult then of_int (fire_med_adult p)
        else if st = Seedling then of_int (fire_low_seedling p)
        else if st = Juvenile then of_int (fire_low_juvenile p)
        else of_int (fire_low_adult p))
     else 0)"

definition invasive_init :: "params \<Rightarrow> bool \<Rightarrow> real \<Rightarrow> real" where
  "invasive_init p has_fire fireSeverity =
    (if has_fire then
       (if fireSeverity > high_threshold p then of_int (fire_high_invasive p)
        else if fireSeverity > med_threshold p then of_int (fire_med_invasive p)
        else of_int (fire_low_invasive p))
     else of_int (baseline_invasive p))"

definition post_fire_bonus_expr :: "params \<Rightarrow> bool \<Rightarrow> int \<Rightarrow> real" where
  "post_fire_bonus_expr p has_fire stepCount =
    (if has_fire then
       (if stepCount < post_fire_duration p then of_int (post_fire_bonus p) else 0)
     else 0)"

subsection \<open>The patch rules (lines 167--192)\<close>

text \<open>
  Each rule is a function of the attributes its right-hand side reads. Counts are
  integers, percentages are reals.
\<close>

definition roomForSeedlings :: "params \<Rightarrow> int \<Rightarrow> int" where
  "roomForSeedlings p numTrees = max_trees p - numTrees"

definition hasRoom :: "params \<Rightarrow> int \<Rightarrow> bool" where
  "hasRoom p numTrees = (roomForSeedlings p numTrees > 0)"

definition canEstablish :: "params \<Rightarrow> real \<Rightarrow> bool" where
  "canEstablish p invasiveCover = (invasiveCover < of_int (establishment_threshold p))"

definition potentialSeedlings :: "params \<Rightarrow> int \<Rightarrow> int \<Rightarrow> real \<Rightarrow> int" where
  "potentialSeedlings p numAdults numTrees invasiveCover =
    (if canEstablish p invasiveCover \<and> hasRoom p numTrees then numAdults else 0)"

definition limitedSeedlings :: "params \<Rightarrow> int \<Rightarrow> int \<Rightarrow> real \<Rightarrow> int" where
  "limitedSeedlings p numAdults numTrees invasiveCover =
    (if potentialSeedlings p numAdults numTrees invasiveCover < roomForSeedlings p numTrees
     then potentialSeedlings p numAdults numTrees invasiveCover
     else roomForSeedlings p numTrees)"

definition actualNewSeedlings :: "params \<Rightarrow> int \<Rightarrow> int \<Rightarrow> real \<Rightarrow> int" where
  "actualNewSeedlings p numAdults numTrees invasiveCover =
    (if limitedSeedlings p numAdults numTrees invasiveCover > 0
     then limitedSeedlings p numAdults numTrees invasiveCover
     else 0)"

definition activeRemoval :: "params \<Rightarrow> real \<Rightarrow> int \<Rightarrow> real" where
  "activeRemoval p removalEffort stepCount =
    (if stepCount < removal_duration p then removalEffort else 0)"

text \<open>
  \<^verbatim>\<open>treeSuppression.step\<close> divides by \<^verbatim>\<open>max_trees\<close>. With \<^verbatim>\<open>max_trees = 0\<close> and a tree on
  the patch the quotient does not exist; the rule then has no value (\<open>None\<close>).
\<close>

definition treeSuppression :: "params \<Rightarrow> int \<Rightarrow> real option" where
  "treeSuppression p numTrees =
    (if numTrees > 0 then
       (if max_trees p = 0 then None
        else Some (tree_suppression p * (of_int numTrees / of_int (max_trees p))))
     else Some 0)"

definition growthRate :: "params \<Rightarrow> real \<Rightarrow> real \<Rightarrow> real" where
  "growthRate p postFireBonus treeSupp =
    (of_int (base_growth p) + postFireBonus) * (1 - treeSupp)"

definition netGrowth :: "real \<Rightarrow> real \<Rightarrow> real \<Rightarrow> real" where
  "netGrowth growth priorInvasiveCover removal =
    growth * (1 - priorInvasiveCover / 100) - removal"

definition rawCover :: "real \<Rightarrow> real \<Rightarrow> real" where
  "rawCover priorInvasiveCover net = priorInvasiveCover + net"

definition invasiveCover_of_raw :: "real \<Rightarrow> real" where
  "invasiveCover_of_raw raw = (if raw < 0 then 0 else (if raw > 100 then 100 else raw))"

text \<open>
  \<^verbatim>\<open>invasiveCover.step\<close> with its chain of intermediate rules resolved: the arguments are
  the scenario flag, \<^verbatim>\<open>removalEffort\<close>, \<^verbatim>\<open>prior.invasiveCover\<close>, \<^verbatim>\<open>numTrees\<close> and the
  step's \<^verbatim>\<open>stepCount\<close>.
\<close>

definition invasiveCover_step ::
  "params \<Rightarrow> bool \<Rightarrow> real \<Rightarrow> real \<Rightarrow> int \<Rightarrow> int \<Rightarrow> real option" where
  "invasiveCover_step p has_fire removalEffort priorInvasiveCover numTrees stepCount =
    (case treeSuppression p numTrees of
       None \<Rightarrow> None
     | Some supp \<Rightarrow>
         Some (invasiveCover_of_raw
           (rawCover priorInvasiveCover
             (netGrowth (growthRate p (post_fire_bonus_expr p has_fire stepCount) supp)
                priorInvasiveCover
                (activeRemoval p removalEffort stepCount)))))"

subsection \<open>The organism \<^verbatim>\<open>NativeTree\<close> (lines 204--238)\<close>

text \<open>
  An organism holds \<^verbatim>\<open>age\<close>, \<^verbatim>\<open>state\<close> and \<^verbatim>\<open>alive\<close>. The engine's entities are objects;
  their identity is made explicit as a serial number \<open>ident\<close>, which also names the
  organism's random draws.
\<close>

record organism =
  ident :: nat
  age :: real
  state :: stage
  alive :: bool

text \<open>
  The three \<^verbatim>\<open>sample uniform\<close> rules draw from outside the program: \<open>ageSample\<close> and
  \<open>fireDeathRoll\<close> once per organism at its creation, \<open>deathRoll\<close> once per organism and
  step.
\<close>

record draws =
  ageSample :: "nat \<Rightarrow> real"
  fireDeathRoll :: "nat \<Rightarrow> real"
  deathRoll :: "int \<Rightarrow> nat \<Rightarrow> real"

definition state_init :: "params \<Rightarrow> real \<Rightarrow> stage" where
  "state_init p a =
    (if a \<ge> of_int (juvenile_to_adult p) then Adult
     else (if a \<ge> of_int (seedling_to_juvenile p) then Juvenile else Seedling))"

definition alive_init :: "real \<Rightarrow> real \<Rightarrow> bool" where
  "alive_init roll fireMortality = (roll > fireMortality)"

text \<open>
  The \<^verbatim>\<open>.init\<close> rules of the organism, run for the organism numbered \<open>i\<close> on a patch of
  fire severity \<open>hereFireSeverity\<close>.
\<close>

definition NativeTree_init :: "params \<Rightarrow> bool \<Rightarrow> real \<Rightarrow> draws \<Rightarrow> nat \<Rightarrow> organism" where
  "NativeTree_init p has_fire hereFireSeverity d i =
    (let a = ageSample d i;
         st = state_init p a
     in \<lparr> ident = i, age = a, state = st,
          alive = alive_init (fireDeathRoll d i) (fire_mortality p has_fire hereFireSeverity st) \<rparr>)"

text \<open>
  \<^verbatim>\<open>create k of NativeTree\<close>: the template uses this one operator both in
  \<^verbatim>\<open>NativeTree.init\<close> (line 164) and in \<^verbatim>\<open>NativeTree.end\<close> (line 177); each created organism
  runs the organism's \<^verbatim>\<open>.init\<close> rules.
\<close>

definition create :: "params \<Rightarrow> bool \<Rightarrow> real \<Rightarrow> draws \<Rightarrow> nat \<Rightarrow> int \<Rightarrow> organism list" where
  "create p has_fire hereFireSeverity d first k =
    map (NativeTree_init p has_fire hereFireSeverity d) [first ..< first + nat k]"

definition totalMortality :: "params \<Rightarrow> real \<Rightarrow> real" where
  "totalMortality p hereInvasiveCover =
    of_int (seedling_mortality p) +
    (if hereInvasiveCover > of_int (invasive_pressure_threshold p)
     then of_int (seedling_invasive_pressure p) else 0)"

definition alive_step :: "params \<Rightarrow> stage \<Rightarrow> real \<Rightarrow> real \<Rightarrow> bool" where
  "alive_step p st hereInvasiveCover roll =
    (case st of
       Seedling \<Rightarrow> roll > totalMortality p hereInvasiveCover
     | Juvenile \<Rightarrow> roll > of_int (juvenile_mortality p)
     | Adult \<Rightarrow> roll > of_int (adult_mortality p))"

definition state_step :: "params \<Rightarrow> stage \<Rightarrow> real \<Rightarrow> bool \<Rightarrow> stage" where
  "state_step p st currentAge currentAlive =
    (case st of
       Seedling \<Rightarrow>
         (if currentAge \<ge> of_int (seedling_to_juvenile p) \<and> currentAlive then Juvenile
          else Seedling)
     | Juvenile \<Rightarrow>
         (if currentAge \<ge> of_int (juvenile_to_adult p) \<and> currentAlive then Adult
          else Juvenile)
     | Adult \<Rightarrow> Adult)"

definition NativeTree_step :: "params \<Rightarrow> real \<Rightarrow> real \<Rightarrow> organism \<Rightarrow> organism" where
  "NativeTree_step p hereInvasiveCover roll og =
    (let a = age og + 1;
         al = alive_step p (state og) hereInvasiveCover roll
     in og \<lparr> age := a, alive := al, state := state_step p (state og) a al \<rparr>)"

subsection \<open>The patch and one time step\<close>

text \<open>
  The patch attributes that are carried from step to step. \<open>serial\<close> is the number the
  next created organism receives; \<open>newSeedlings\<close> holds \<^verbatim>\<open>actualNewSeedlings\<close> of the last
  step, as exported.
\<close>

record patch =
  seedingBoost :: int
  removalEffort :: real
  fireSeverity :: real
  NativeTree :: "organism list"
  invasiveCover :: real
  stepCount :: int
  newSeedlings :: int
  serial :: nat

definition patch_init :: "params \<Rightarrow> bool \<Rightarrow> int \<Rightarrow> int \<Rightarrow> real \<Rightarrow> draws \<Rightarrow> patch" where
  "patch_init p has_fire seeding_boost removal_effort external_data d =
    (let sev = fire_severity_init has_fire external_data
     in \<lparr> seedingBoost = seeding_boost,
          removalEffort = of_int removal_effort,
          fireSeverity = sev,
          NativeTree = create p has_fire sev d 0 (initial_trees p),
          invasiveCover = invasive_init p has_fire sev,
          stepCount = 0,
          newSeedlings = 0,
          serial = nat (initial_trees p) \<rparr>)"

text \<open>\<^verbatim>\<open>NativeTree.start\<close> (line 165): the living population of a step.\<close>

definition NativeTree_start :: "organism list \<Rightarrow> organism list" where
  "NativeTree_start priorNativeTree = filter (\<lambda>og. alive og = True) priorNativeTree"

definition count_state :: "stage \<Rightarrow> organism list \<Rightarrow> int" where
  "count_state st trees = int (length (filter (\<lambda>og. state og = st) trees))"

text \<open>
  One time step of a patch. The \<^verbatim>\<open>.start\<close> rule selects the living population; the
  \<^verbatim>\<open>.step\<close> rules read the step's own values of the attributes they name without
  \<^verbatim>\<open>prior\<close> (\<^verbatim>\<open>stepCount\<close>, \<^verbatim>\<open>invasiveCover\<close>, the organisms' \<^verbatim>\<open>state\<close>); the \<^verbatim>\<open>.end\<close> rule
  appends the created organisms. Attributes without a \<^verbatim>\<open>.step\<close> rule (\<^verbatim>\<open>seedingBoost\<close>,
  \<^verbatim>\<open>removalEffort\<close>, \<^verbatim>\<open>fireSeverity\<close>) keep their value.
\<close>

definition patch_step :: "params \<Rightarrow> bool \<Rightarrow> draws \<Rightarrow> patch \<Rightarrow> patch option" where
  "patch_step p has_fire d prior =
    (let living = NativeTree_start (NativeTree prior);
         sc = stepCount prior + 1;
         numTrees = int (length living)
     in case invasiveCover_step p has_fire (removalEffort prior) (invasiveCover prior) numTrees sc of
          None \<Rightarrow> None
        | Some cover \<Rightarrow>
            (let stepped = map (\<lambda>og. NativeTree_step p cover (deathRoll d sc (ident og)) og) living;
                 numAdults = count_state Adult stepped;
                 new = actualNewSeedlings p numAdults numTrees cover
             in Some (prior \<lparr> NativeTree :=
                                stepped @ create p has_fire (fireSeverity prior) d (serial prior) new,
                              invasiveCover := cover,
                              stepCount := sc,
                              newSeedlings := new,
                              serial := serial prior + nat new \<rparr>)))"

text \<open>The patch after \<open>n\<close> time steps; \<open>None\<close> when a step had no value.\<close>

fun run :: "params \<Rightarrow> bool \<Rightarrow> int \<Rightarrow> int \<Rightarrow> real \<Rightarrow> draws \<Rightarrow> nat \<Rightarrow> patch option" where
  "run p has_fire seeding_boost removal_effort external_data d 0 =
     Some (patch_init p has_fire seeding_boost removal_effort external_data d)"
| "run p has_fire seeding_boost removal_effort external_data d (Suc n) =
     (case run p has_fire seeding_boost removal_effort external_data d n of
        None \<Rightarrow> None
      | Some s \<Rightarrow> patch_step p has_fire d s)"

subsection \<open>The parameter parser \<^verbatim>\<open>parse_jshc\<close> (lines 37--53)\<close>

text \<open>
  The file is a list of lines. \<^verbatim>\<open>str.strip\<close> and the classes \<^verbatim>\<open>\s\<close>, \<^verbatim>\<open>\w\<close> of the regular
  expression are read on ASCII text. The pattern \<^verbatim>\<open>([0-9.]+)\s*(\w*)\<close> matches at the start
  of the value exactly when the value begins with a digit or a dot; its first group is the
  longest such prefix, its second the word after optional white space. \<^verbatim>\<open>float\<close> is read
  on strings of digits and dots, the only ones the first group can hold: it raises
  \<^verbatim>\<open>ValueError\<close> on a string without a digit or with two dots.
\<close>

type_synonym param_dict = "string \<rightharpoonup> real \<times> string"

definition is_space :: "char \<Rightarrow> bool" where
  "is_space c = (let n = (of_char c :: nat) in (9 \<le> n \<and> n \<le> 13) \<or> (28 \<le> n \<and> n \<le> 32))"

definition is_digit :: "char \<Rightarrow> bool" where
  "is_digit c = (let n = (of_char c :: nat) in 48 \<le> n \<and> n \<le> 57)"

definition is_numch :: "char \<Rightarrow> bool" where
  "is_numch c = (is_digit c \<or> c = CHR ''.'')"

definition is_word :: "char \<Rightarrow> bool" where
  "is_word c = (let n = (of_char c :: nat) in
     (48 \<le> n \<and> n \<le> 57) \<or> (65 \<le> n \<and> n \<le> 90) \<or> (97 \<le> n \<and> n \<le> 122) \<or> n = 95)"

definition strip :: "string \<Rightarrow> string" where
  "strip s = rev (dropWhile is_space (rev (dropWhile is_space s)))"

definition line_text :: "string \<Rightarrow> string" where
  "line_text raw = strip (takeWhile (\<lambda>c. c \<noteq> CHR ''#'') raw)"

definition key_text :: "string \<Rightarrow> string" where
  "key_text line = strip (takeWhile (\<lambda>c. c \<noteq> CHR ''='') line)"

definition value_text :: "string \<Rightarrow> string" where
  "value_text line = strip (drop 1 (dropWhile (\<lambda>c. c \<noteq> CHR ''='') line))"

definition match_value :: "string \<Rightarrow> (string \<times> string) option" where
  "match_value v =
    (if takeWhile is_numch v = [] then None
     else Some (takeWhile is_numch v,
                takeWhile is_word (dropWhile is_space (dropWhile is_numch v))))"

definition digits_value :: "string \<Rightarrow> nat" where
  "digits_value ds = foldl (\<lambda>a c. 10 * a + (of_char c - 48)) 0 ds"

definition py_float :: "string \<Rightarrow> real result" where
  "py_float t =
    (let ip = takeWhile is_digit t;
         rest = dropWhile is_digit t
     in if rest = [] then
          (if ip = [] then Inl ValueError else Inr (of_nat (digits_value ip)))
        else if hd rest = CHR ''.'' \<and> list_all is_digit (tl rest) \<and> (ip \<noteq> [] \<or> tl rest \<noteq> [])
          then Inr (of_nat (digits_value ip)
                    + of_nat (digits_value (tl rest)) / 10 ^ length (tl rest))
        else Inl ValueError)"

definition parse_line :: "param_dict \<Rightarrow> string \<Rightarrow> param_dict result" where
  "parse_line ps raw =
    (let line = line_text raw
     in if CHR ''='' \<in> set line then
          (case match_value (value_text line) of
             None \<Rightarrow> Inr ps
           | Some (g1, g2) \<Rightarrow>
               bind_result (py_float g1) (\<lambda>num. Inr (ps (key_text line \<mapsto> (num, g2)))))
        else Inr ps)"

fun parse_lines :: "param_dict \<Rightarrow> string list \<Rightarrow> param_dict result" where
  "parse_lines ps [] = Inr ps"
| "parse_lines ps (raw # rest) = bind_result (parse_line ps raw) (\<lambda>ps'. parse_lines ps' rest)"

definition parse_jshc :: "string list \<Rightarrow> param_dict result" where
  "parse_jshc lines = parse_lines Map.empty lines"

subsection \<open>Parameter extraction in \<^verbatim>\<open>generate_model\<close> (lines 59--104)\<close>

text \<open>
  \<^verbatim>\<open>params[key][0]\<close> raises \<^verbatim>\<open>KeyError\<close> on a missing key; \<^verbatim>\<open>int(...)\<close> truncates towards
  zero. The lookups run in the order of the source. The generated model is represented by
  the scenario's name and flags and the extracted parameters, on which the rules above are
  read.
\<close>

definition param_value :: "param_dict \<Rightarrow> string \<Rightarrow> real result" where
  "param_value ps k = (case ps k of None \<Rightarrow> Inl (KeyError k) | Some (v, u) \<Rightarrow> Inr v)"

definition py_int :: "real \<Rightarrow> int" where
  "py_int x = (if 0 \<le> x then \<lfloor>x\<rfloor> else \<lceil>x\<rceil>)"

definition param_int :: "param_dict \<Rightarrow> string \<Rightarrow> int result" where
  "param_int ps k = bind_result (param_value ps k) (\<lambda>v. Inr (py_int v))"

definition extract_params :: "param_dict \<Rightarrow> params result" where
  "extract_params ps =
    bind_result (param_int ps ''totalSteps'') (\<lambda>v1.
    bind_result (param_int ps ''initialTreesPerPatch'') (\<lambda>v2.
    bind_result (param_int ps ''maxTreesPerPatch'') (\<lambda>v3.
    bind_result (param_int ps ''seedlingToJuvenileAge'') (\<lambda>v4.
    bind_result (param_int ps ''juvenileToAdultAge'') (\<lambda>v5.
    bind_result (param_int ps ''seedlingBaseMortality'') (\<lambda>v6.
    bind_result (param_int ps ''juvenileBaseMortality'') (\<lambda>v7.
    bind_result (param_int ps ''adultBaseMortality'') (\<lambda>v8.
    bind_result (param_int ps ''seedlingInvasivePressure'') (\<lambda>v9.
    bind_result (param_int ps ''invasivePressureThreshold'') (\<lambda>v10.
    bind_result (param_int ps ''fireHighSeedling'') (\<lambda>v11.
    bind_result (param_int ps ''fireHighJuvenile'') (\<lambda>v12.
    bind_result (param_int ps ''fireHighAdult'') (\<lambda>v13.
    bind_result (param_int ps ''fireMediumSeedling'') (\<lambda>v14.
    bind_result (param_int ps ''fireMediumJuvenile'') (\<lambda>v15.
    bind_result (param_int ps ''fireMediumAdult'') (\<lambda>v16.
    bind_result (param_int ps ''fireLowSeedling'') (\<lambda>v17.
    bind_result (param_int ps ''fireLowJuvenile'') (\<lambda>v18.
    bind_result (param_int ps ''fireLowAdult'') (\<lambda>v19.
    bind_result (param_value ps ''highSeverityThreshold'') (\<lambda>v20.
    bind_result (param_value ps ''mediumSeverityThreshold'') (\<lambda>v21.
    bind_result (param_int ps ''baselineInvasiveCover'') (\<lambda>v22.
    bind_result (param_int ps ''fireHighInvasiveCover'') (\<lambda>v23.
    bind_result (param_int ps ''fireMediumInvasiveCover'') (\<lambda>v24.
    bind_result (param_int ps ''fireLowInvasiveCover'') (\<lambda>v25.
    bind_result (param_int ps ''establishmentThreshold'') (\<lambda>v26.
    bind_result (param_int ps ''invasiveBaseGrowthRate'') (\<lambda>v27.
    bind_result (param_int ps ''postFireGrowthBonus'') (\<lambda>v28.
    bind_result (param_int ps ''postFireBonusDuration'') (\<lambda>v29.
    bind_result (param_value ps ''treeSuppression'') (\<lambda>v30.
    bind_result (param_int ps ''removalDuration'') (\<lambda>v31.
    bind_result (param_int ps ''initialAgeMin'') (\<lambda>v32.
    bind_result (param_int ps ''initialAgeMax'') (\<lambda>v33.
      Inr \<lparr> total_steps = v1,
           initial_trees = v2,
           max_trees = v3,
           seedling_to_juvenile = v4,
           juvenile_to_adult = v5,
           seedling_mortality = v6,
           juvenile_mortality = v7,
           adult_mortality = v8,
           seedling_invasive_pressure = v9,
           invasive_pressure_threshold = v10,
           fire_high_seedling = v11,
           fire_high_juvenile = v12,
           fire_high_adult = v13,
           fire_med_seedling = v14,
           fire_med_juvenile = v15,
           fire_med_adult = v16,
           fire_low_seedling = v17,
           fire_low_juvenile = v18,
           fire_low_adult = v19,
           high_threshold = v20,
           med_threshold = v21,
           baseline_invasive = v22,
           fire_high_invasive = v23,
           fire_med_invasive = v24,
           fire_low_invasive = v25,
           establishment_threshold = v26,
           base_growth = v27,
           post_fire_bonus = v28,
           post_fire_duration = v29,
           tree_suppression = v30,
           removal_duration = v31,
           age_min = v32,
           age_max = v33 \<rparr>)))))))))))))))))))))))))))))))))"

definition required_keys :: "string list" where
  "required_keys =
    [''totalSteps'',
     ''initialTreesPerPatch'',
     ''maxTreesPerPatch'',
     ''seedlingToJuvenileAge'',
     ''juvenileToAdultAge'',
     ''seedlingBaseMortality'',
     ''juvenileBaseMortality'',
     ''adultBaseMortality'',
     ''seedlingInvasivePressure'',
     ''invasivePressureThreshold'',
     ''fireHighSeedling'',
     ''fireHighJuvenile'',
     ''fireHighAdult'',
     ''fireMediumSeedling'',
     ''fireMediumJuvenile'',
     ''fireMediumAdult'',
     ''fireLowSeedling'',
     ''fireLowJuvenile'',
     ''fireLowAdult'',
     ''highSeverityThreshold'',
     ''mediumSeverityThreshold'',
     ''baselineInvasiveCover'',
     ''fireHighInvasiveCover'',
     ''fireMediumInvasiveCover'',
     ''fireLowInvasiveCover'',
     ''establishmentThreshold'',
     ''invasiveBaseGrowthRate'',
     ''postFireGrowthBonus'',
     ''postFireBonusDuration'',
     ''treeSuppression'',
     ''removalDuration'',
     ''initialAgeMin'',
     ''initialAgeMax'']"

record model =
  model_name :: string
  model_has_fire :: bool
  model_seeding_boost :: int
  model_removal_effort :: int
  model_params :: params

definition generate_model :: "string \<Rightarrow> bool \<Rightarrow> int \<Rightarrow> int \<Rightarrow> param_dict \<Rightarrow> model result" where
  "generate_model scenario_name has_fire seeding_boost removal_effort ps =
    bind_result (extract_params ps) (\<lambda>p.
      Inr \<lparr> model_name = scenario_name, model_has_fire = has_fire,
            model_seeding_boost = seeding_boost, model_removal_effort = removal_effort,
            model_params = p \<rparr>)"

text \<open>Auxiliary notions: a dictionary of non-negative values, and the failure of a lookup.\<close>

definition nonneg_dict :: "param_dict \<Rightarrow> bool" where
  "nonneg_dict ps = (\<forall>k v u. ps k = Some (v, u) \<longrightarrow> 0 \<le> v)"

definition key_failure :: "param_dict \<Rightarrow> py_error \<Rightarrow> bool" where
  "key_failure ps e = list_ex (\<lambda>k. e = KeyError k \<and> ps k = None) required_keys"

subsection \<open>The aggregation \<^verbatim>\<open>combine_results\<close> (lines 277--304)\<close>














subsection \<open>Example values\<close>

text \<open>
  A parameter set and a set of draws for the concrete evaluations below. The repository's
  own \<^verbatim>\<open>params.jshc\<close> is not among the sources, so the numbers are examples.
\<close>

definition example_params :: params where
  "example_params =
    \<lparr> total_steps = 50, initial_trees = 5, max_trees = 10,
      seedling_to_juvenile = 5, juvenile_to_adult = 15,
      seedling_mortality = 10, juvenile_mortality = 5, adult_mortality = 2,
      seedling_invasive_pressure = 20, invasive_pressure_threshold = 50,
      fire_high_seedling = 95, fire_high_juvenile = 80, fire_high_adult = 60,
      fire_med_seedling = 70, fire_med_juvenile = 50, fire_med_adult = 30,
      fire_low_seedling = 30, fire_low_juvenile = 15, fire_low_adult = 5,
      high_threshold = 8 / 10, med_threshold = 4 / 10,
      baseline_invasive = 10, fire_high_invasive = 60, fire_med_invasive = 40,
      fire_low_invasive = 20, establishment_threshold = 70, base_growth = 5,
      post_fire_bonus = 3, post_fire_duration = 5, tree_suppression = 1 / 2,
      removal_duration = 10, age_min = 0, age_max = 30 \<rparr>"

text \<open>
  Every initial tree draws age 20 and survives its fire roll; the first organism created
  later (number 5) draws age 0 and a fire roll of 50. All per-step rolls are 99.
\<close>

definition example_draws :: draws where
  "example_draws =
    \<lparr> ageSample = (\<lambda>i. if i = 5 then 0 else 20),
      fireDeathRoll = (\<lambda>i. if i = 5 then 50 else 99),
      deathRoll = (\<lambda>t i. 99) \<rparr>"

text \<open>The example parameters with a baseline invasive cover of 150 percent.\<close>

definition high_baseline_params :: params where
  "high_baseline_params = example_params \<lparr> baseline_invasive := 150 \<rparr>"



text \<open>The example draws with every fire roll equal to 0, the lower end of its range.\<close>

definition zero_roll_draws :: draws where
  "zero_roll_draws = example_draws \<lparr> fireDeathRoll := (\<lambda>i. 0) \<rparr>"

subsection \<open>Identities on a patch\<close>

text \<open>
  The identities borne on a patch, the invariant that they are pairwise different and
  below the serial, and an identity that is no longer borne.
\<close>

definition idents :: "patch \<Rightarrow> nat list" where
  "idents s = map ident (NativeTree s)"

definition idents_fresh :: "patch \<Rightarrow> bool" where
  "idents_fresh s = (distinct (idents s) \<and> list_all (\<lambda>i. i < serial s) (idents s))"

definition gone :: "nat \<Rightarrow> patch \<Rightarrow> bool" where
  "gone i s = (i \<notin> set (idents s) \<and> i < serial s)"

section \<open>The specification's formulations\<close>

text \<open>
  These definitions follow the words of the specification, not the code; the properties
  below compare the rules of the generated model with them.
\<close>

datatype severity_tier = High | Medium | Low

definition spec_severity_tier :: "params \<Rightarrow> real \<Rightarrow> severity_tier" where
  "spec_severity_tier p sev =
    (if sev > high_threshold p then High
     else if sev > med_threshold p then Medium else Low)"

fun spec_tier_mortality :: "params \<Rightarrow> severity_tier \<Rightarrow> stage \<Rightarrow> real" where
  "spec_tier_mortality p High Seedling = of_int (fire_high_seedling p)"
| "spec_tier_mortality p High Juvenile = of_int (fire_high_juvenile p)"
| "spec_tier_mortality p High Adult = of_int (fire_high_adult p)"
| "spec_tier_mortality p Medium Seedling = of_int (fire_med_seedling p)"
| "spec_tier_mortality p Medium Juvenile = of_int (fire_med_juvenile p)"
| "spec_tier_mortality p Medium Adult = of_int (fire_med_adult p)"
| "spec_tier_mortality p Low Seedling = of_int (fire_low_seedling p)"
| "spec_tier_mortality p Low Juvenile = of_int (fire_low_juvenile p)"
| "spec_tier_mortality p Low Adult = of_int (fire_low_adult p)"

fun spec_tier_invasive :: "params \<Rightarrow> severity_tier \<Rightarrow> real" where
  "spec_tier_invasive p High = of_int (fire_high_invasive p)"
| "spec_tier_invasive p Medium = of_int (fire_med_invasive p)"
| "spec_tier_invasive p Low = of_int (fire_low_invasive p)"

definition spec_clamp :: "real \<Rightarrow> real \<Rightarrow> real \<Rightarrow> real" where
  "spec_clamp x lo hi = max lo (min hi x)"

definition spec_suppression :: "params \<Rightarrow> int \<Rightarrow> real" where
  "spec_suppression p numTrees =
    (if numTrees = 0 then 0
     else tree_suppression p * (of_int numTrees / of_int (max_trees p)))"

definition spec_invasive_update ::
  "params \<Rightarrow> real \<Rightarrow> real \<Rightarrow> real \<Rightarrow> int \<Rightarrow> int \<Rightarrow> real" where
  "spec_invasive_update p bonus effort priorCover numTrees sc =
    (let suppression = spec_suppression p numTrees;
         growth = (of_int (base_growth p) + bonus) * (1 - suppression);
         removal = (if sc < removal_duration p then effort else 0);
         net = growth * (1 - priorCover / 100) - removal
     in spec_clamp (priorCover + net) 0 100)"

text \<open>The life stages in their order.\<close>

definition stage_rank :: "stage \<Rightarrow> nat" where
  "stage_rank st = (case st of Seedling \<Rightarrow> 0 | Juvenile \<Rightarrow> 1 | Adult \<Rightarrow> 2)"









section \<open>Properties\<close>

subsection \<open>Fire tiers\<close>

lemma fire_mortality_tier:
  "fire_mortality p True sev st = spec_tier_mortality p (spec_severity_tier p sev) st"
  by (cases st) (simp_all add: fire_mortality_def spec_severity_tier_def)

lemma invasive_init_tier:
  "invasive_init p True sev = spec_tier_invasive p (spec_severity_tier p sev)"
  by (simp add: invasive_init_def spec_severity_tier_def)

text \<open>
  Claim C5. With fire enabled, the fire mortality of an organism is the table entry for
  (severity tier, life stage), where the tier is chosen by strictly-greater comparisons:
  above \<^verbatim>\<open>highSeverityThreshold\<close> the high tier, else above \<^verbatim>\<open>mediumSeverityThreshold\<close> the
  medium tier, else the low tier. The initial invasive cover uses the same tier. A
  severity equal to the high threshold is never in the high tier; with the thresholds in
  order it is in the medium tier, and a severity equal to the medium threshold in the low
  tier. With a high threshold of 0.8, severity 0.95 gives the high-tier Seedling mortality
  and \<^verbatim>\<open>fireHighInvasiveCover\<close>.
\<close>

theorem fire_tier_lookup:
  "fire_mortality p True sev st = spec_tier_mortality p (spec_severity_tier p sev) st
   \<and> invasive_init p True sev = spec_tier_invasive p (spec_severity_tier p sev)
   \<and> spec_severity_tier p (high_threshold p) \<noteq> High
   \<and> (med_threshold p < high_threshold p \<longrightarrow>
        spec_severity_tier p (high_threshold p) = Medium
      \<and> spec_severity_tier p (med_threshold p) = Low
      \<and> fire_mortality p True (high_threshold p) st = spec_tier_mortality p Medium st
      \<and> fire_mortality p True (med_threshold p) st = spec_tier_mortality p Low st
      \<and> invasive_init p True (high_threshold p) = of_int (fire_med_invasive p)
      \<and> invasive_init p True (med_threshold p) = of_int (fire_low_invasive p))
   \<and> (high_threshold p = 8 / 10 \<longrightarrow>
        fire_mortality p True (95 / 100) Seedling = of_int (fire_high_seedling p)
      \<and> invasive_init p True (95 / 100) = of_int (fire_high_invasive p))"
  by (simp add: fire_mortality_tier invasive_init_tier spec_severity_tier_def)

text \<open>
  The example parameters have thresholds 0.4 and 0.8: severity 0.8 reads the medium tier,
  severity 0.4 the low tier, severity 0.95 the high tier.
\<close>

theorem fire_tier_lookup_witness:
  "med_threshold example_params < high_threshold example_params
   \<and> high_threshold example_params = 8 / 10
   \<and> fire_mortality example_params True (8 / 10) Seedling = 70
   \<and> fire_mortality example_params True (4 / 10) Adult = 5
   \<and> invasive_init example_params True (8 / 10) = 40
   \<and> fire_mortality example_params True (95 / 100) Seedling = 95
   \<and> invasive_init example_params True (95 / 100) = 60"
  using fire_tier_lookup [of example_params "8 / 10" Seedling]
        fire_tier_lookup [of example_params "8 / 10" Adult]
  by (simp add: example_params_def)

subsection \<open>The invasive-cover recurrence\<close>

lemma invasiveCover_of_raw_clamp: "invasiveCover_of_raw raw = spec_clamp raw 0 100"
  by (simp add: invasiveCover_of_raw_def spec_clamp_def)

lemma treeSuppression_spec:
  "0 \<le> numTrees \<Longrightarrow> (0 < numTrees \<longrightarrow> max_trees p \<noteq> 0) \<Longrightarrow>
   treeSuppression p numTrees = Some (spec_suppression p numTrees)"
  by (simp add: treeSuppression_def spec_suppression_def)

text \<open>
  Claim C6. For a tree count \<open>numTrees \<ge> 0\<close> (and a non-zero \<^verbatim>\<open>maxTreesPerPatch\<close> when there
  is a tree), the step's invasive cover is the specification's recurrence: suppression,
  growth rate, active removal, net growth, and the sum clamped to [0, 100]. With a removal
  duration of 10 and an effort of 12, the active removal is 12 at step count 5 and 0 at
  step count 15.
\<close>

theorem invasive_cover_recurrence:
  assumes "0 \<le> numTrees" and "0 < numTrees \<longrightarrow> max_trees p \<noteq> 0"
  shows "invasiveCover_step p has_fire effort priorCover numTrees sc =
           Some (spec_invasive_update p (post_fire_bonus_expr p has_fire sc)
                   effort priorCover numTrees sc)
       \<and> (removal_duration p = 10 \<longrightarrow>
            activeRemoval p 12 5 = 12 \<and> activeRemoval p 12 15 = 0)"
  using assms
  by (simp add: invasiveCover_step_def treeSuppression_spec spec_invasive_update_def
      invasiveCover_of_raw_clamp rawCover_def netGrowth_def growthRate_def activeRemoval_def)

text \<open>
  Four trees on a patch of capacity ten, prior cover 40, removal effort 12: the cover
  falls to 30.4 inside the removal window (step 5) and rises to 42.4 after it (step 15).
\<close>

theorem invasive_cover_recurrence_witness:
  "(0::int) \<le> 4 \<and> max_trees example_params \<noteq> 0 \<and> removal_duration example_params = 10
   \<and> invasiveCover_step example_params True 12 40 4 5 = Some (152 / 5)
   \<and> invasiveCover_step example_params True 12 40 4 15 = Some (212 / 5)
   \<and> activeRemoval example_params 12 5 = 12 \<and> activeRemoval example_params 12 15 = 0"
  using invasive_cover_recurrence [of 4 example_params True 12 40 5]
        invasive_cover_recurrence [of 4 example_params True 12 40 15]
  by (simp add: example_params_def spec_invasive_update_def spec_suppression_def
      spec_clamp_def post_fire_bonus_expr_def)

subsection \<open>Recruitment\<close>

text \<open>
  Claim C4, as stated, fails where the patch holds more trees than \<^verbatim>\<open>maxTreesPerPatch\<close>
  (an initial population above the capacity): the room is negative, the count is 0, and 0
  exceeds the negative minimum. Twelve trees on a patch of capacity ten, three adults:
\<close>

theorem recruitment_count_counterexample:
  "max_trees example_params = 10
   \<and> \<not> (actualNewSeedlings example_params 3 12 0
        \<le> min 3 (max_trees example_params - 12))"
  by (simp add: actualNewSeedlings_def limitedSeedlings_def potentialSeedlings_def
      canEstablish_def hasRoom_def roomForSeedlings_def example_params_def)

text \<open>
  Claim C4, amended. The number of new Seedlings is
  \<open>min numAdults (maxTreesPerPatch - numTrees)\<close> when the invasive cover is below the
  establishment threshold and that minimum is positive, and 0 otherwise; it is never
  negative and never exceeds the minimum floored at 0; and \<^verbatim>\<open>create\<close> makes exactly that
  many organisms.
\<close>

theorem recruitment_count:
  "actualNewSeedlings p numAdults numTrees cover =
     (if cover < of_int (establishment_threshold p) \<and> min numAdults (max_trees p - numTrees) > 0
      then min numAdults (max_trees p - numTrees) else 0)
   \<and> 0 \<le> actualNewSeedlings p numAdults numTrees cover
   \<and> actualNewSeedlings p numAdults numTrees cover \<le> max 0 (min numAdults (max_trees p - numTrees))
   \<and> int (length (create p has_fire sev d first (actualNewSeedlings p numAdults numTrees cover)))
       = actualNewSeedlings p numAdults numTrees cover"
  by (auto simp: actualNewSeedlings_def limitedSeedlings_def potentialSeedlings_def
      canEstablish_def hasRoom_def roomForSeedlings_def create_def)

subsection \<open>Steps of a patch\<close>

lemma treeSuppression_total: "max_trees p \<noteq> 0 \<Longrightarrow> \<exists>v. treeSuppression p numTrees = Some v"
  by (simp add: treeSuppression_def)

lemma invasiveCover_step_total:
  "max_trees p \<noteq> 0 \<Longrightarrow> \<exists>c. invasiveCover_step p hf effort prior numTrees sc = Some c"
  using treeSuppression_total [of p numTrees]
  by (auto simp: invasiveCover_step_def)

lemma invasiveCover_step_range:
  "invasiveCover_step p hf effort prior numTrees sc = Some c \<Longrightarrow> 0 \<le> c \<and> c \<le> 100"
  by (auto simp: invasiveCover_step_def invasiveCover_of_raw_def split: option.splits)

lemma patch_step_total: "max_trees p \<noteq> 0 \<Longrightarrow> \<exists>s'. patch_step p hf d s = Some s'"
  using invasiveCover_step_total
    [of p hf "removalEffort s" "invasiveCover s"
        "int (length (NativeTree_start (NativeTree s)))" "stepCount s + 1"]
  by (auto simp: patch_step_def Let_def)

lemma patch_step_cover_range:
  "patch_step p hf d s = Some s' \<Longrightarrow> 0 \<le> invasiveCover s' \<and> invasiveCover s' \<le> 100"
  by (auto simp: patch_step_def Let_def split: option.splits dest: invasiveCover_step_range)

lemma patch_step_frame:
  "patch_step p hf d s = Some s' \<Longrightarrow>
     fireSeverity s' = fireSeverity s \<and> seedingBoost s' = seedingBoost s
     \<and> removalEffort s' = removalEffort s \<and> stepCount s' = stepCount s + 1"
  by (auto simp: patch_step_def Let_def split: option.splits)

lemma run_total:
  "max_trees p \<noteq> 0 \<Longrightarrow> \<exists>s. run p hf sb re ext d n = Some s"
proof (induction n)
  case 0
  show ?case by simp
next
  case (Suc n)
  then obtain s where "run p hf sb re ext d n = Some s" by blast
  with patch_step_total [OF Suc.prems, of hf d s] show ?case by auto
qed

lemma run_Suc_cover_range:
  "run p hf sb re ext d (Suc n) = Some s \<Longrightarrow> 0 \<le> invasiveCover s \<and> invasiveCover s \<le> 100"
  by (auto split: option.splits dest: patch_step_cover_range)

lemma run_fireSeverity:
  "run p hf sb re ext d n = Some s \<Longrightarrow> fireSeverity s = fire_severity_init hf ext"
proof (induction n arbitrary: s)
  case 0
  then show ?case by (auto simp: patch_init_def Let_def)
next
  case (Suc n)
  then show ?case by (auto split: option.splits dest: patch_step_frame)
qed

lemma patch_step_NativeTree:
  assumes "patch_step p hf d prior = Some s'"
  shows "NativeTree s' =
     map (\<lambda>og. NativeTree_step p (invasiveCover s') (deathRoll d (stepCount s') (ident og)) og)
         (NativeTree_start (NativeTree prior))
     @ create p hf (fireSeverity prior) d (serial prior) (newSeedlings s')"
  using assms by (auto simp: patch_step_def Let_def split: option.splits)

lemma example_max_trees: "max_trees example_params \<noteq> 0"
  by (simp add: example_params_def)

lemma example_run_1:
  "map_option (\<lambda>s. (newSeedlings s, NativeTree s))
     (run example_params True 0 0 (95 / 100) example_draws 1) =
   Some (5,
    [\<lparr>ident = 0, age = 21, state = Adult, alive = True\<rparr>,
     \<lparr>ident = 1, age = 21, state = Adult, alive = True\<rparr>,
     \<lparr>ident = 2, age = 21, state = Adult, alive = True\<rparr>,
     \<lparr>ident = 3, age = 21, state = Adult, alive = True\<rparr>,
     \<lparr>ident = 4, age = 21, state = Adult, alive = True\<rparr>,
     \<lparr>ident = 5, age = 0, state = Seedling, alive = False\<rparr>,
     \<lparr>ident = 6, age = 20, state = Adult, alive = True\<rparr>,
     \<lparr>ident = 7, age = 20, state = Adult, alive = True\<rparr>,
     \<lparr>ident = 8, age = 20, state = Adult, alive = True\<rparr>,
     \<lparr>ident = 9, age = 20, state = Adult, alive = True\<rparr>])"
  by code_simp

subsection \<open>The seeding boost\<close>

lemma patch_step_seedingBoost:
  "patch_step p hf d (s\<lparr>seedingBoost := b\<rparr>) =
     map_option (\<lambda>t. t\<lparr>seedingBoost := b\<rparr>) (patch_step p hf d s)"
  by (simp add: patch_step_def Let_def split: option.splits)

lemma patch_init_seedingBoost:
  "patch_init p hf sb2 re ext d = (patch_init p hf sb1 re ext d)\<lparr>seedingBoost := sb2\<rparr>"
  by (simp add: patch_init_def Let_def)

lemma run_seedingBoost:
  "run p hf sb2 re ext d n =
     map_option (\<lambda>t. t\<lparr>seedingBoost := sb2\<rparr>) (run p hf sb1 re ext d n)"
proof (induction n)
  case 0
  show ?case using patch_init_seedingBoost [of p hf sb2 re ext d sb1] by simp
next
  case (Suc n)
  show ?case
    by (cases "run p hf sb1 re ext d n") (simp_all add: Suc patch_step_seedingBoost)
qed

lemma run_seedingBoost_const:
  "run p hf sb re ext d n = Some s \<Longrightarrow> seedingBoost s = sb"
proof (induction n arbitrary: s)
  case 0
  then show ?case by (auto simp: patch_init_def Let_def)
next
  case (Suc n)
  then show ?case by (auto split: option.splits dest: patch_step_frame)
qed

text \<open>
  Claim C2. Two runs from the same parameters, fire flag, removal effort, severity and
  random draws that differ only in the seeding boost agree after every number of steps in
  every attribute but \<^verbatim>\<open>seedingBoost\<close> itself, which keeps its initial value; in particular
  \<^verbatim>\<open>fire_seeding\<close> (boost 8) agrees with \<^verbatim>\<open>fire_only\<close> (boost 0) and \<^verbatim>\<open>fire_both\<close> with
  \<^verbatim>\<open>fire_removal\<close>. The room for seedlings is \<^verbatim>\<open>maxTreesPerPatch\<close> minus the tree count.
\<close>

theorem seeding_boost_not_read:
  "run p hf sb2 re ext d n = map_option (\<lambda>t. t\<lparr>seedingBoost := sb2\<rparr>) (run p hf sb1 re ext d n)
   \<and> map_option seedingBoost (run p hf sb1 re ext d n)
       = map_option (\<lambda>t. sb1) (run p hf sb1 re ext d n)
   \<and> run p True 8 0 ext d n = map_option (\<lambda>t. t\<lparr>seedingBoost := 8\<rparr>) (run p True 0 0 ext d n)
   \<and> run p True 8 12 ext d n = map_option (\<lambda>t. t\<lparr>seedingBoost := 8\<rparr>) (run p True 0 12 ext d n)
   \<and> roomForSeedlings p numTrees = max_trees p - numTrees"
proof -
  have "map_option seedingBoost (run p hf sb1 re ext d n)
       = map_option (\<lambda>t. sb1) (run p hf sb1 re ext d n)"
    by (cases "run p hf sb1 re ext d n") (simp_all add: run_seedingBoost_const)
  then show ?thesis
    using run_seedingBoost [of p hf sb2 re ext d n sb1]
        run_seedingBoost [of p True 8 0 ext d n 0]
        run_seedingBoost [of p True 8 12 ext d n 0]
    by (simp add: roomForSeedlings_def)
qed

subsection \<open>Bounds of the invasive cover\<close>

lemma patch_init_cover:
  "invasiveCover (patch_init p hf sb re ext d) = invasive_init p hf (fire_severity_init hf ext)"
  by (simp add: patch_init_def Let_def)

text \<open>
  Claim C3, as stated, fails at initialization: \<^verbatim>\<open>invasiveCover.init\<close> is the configured
  constant, written without a clamp. With \<^verbatim>\<open>baselineInvasiveCover = 150\<close> and no fire the
  patch starts at 150.
\<close>

theorem invasive_cover_bounds_counterexample:
  "\<exists>s. run high_baseline_params False 0 0 0 example_draws 0 = Some s
       \<and> invasiveCover s = 150 \<and> \<not> invasiveCover s \<le> 100"
  by (simp add: patch_init_cover invasive_init_def high_baseline_params_def)

text \<open>
  Claim C3, amended. After every step the cover lies in [0, 100], whatever the cover
  before it; the initial cover is the configured constant of the patch's tier, unclamped;
  so the cover lies in [0, 100] at initialization and after every step exactly when that
  constant does. With a non-zero \<^verbatim>\<open>maxTreesPerPatch\<close> every step has a value.
\<close>

theorem invasive_cover_bounds:
  "(run p hf sb re ext d (Suc n) = Some s \<longrightarrow> 0 \<le> invasiveCover s \<and> invasiveCover s \<le> 100)
   \<and> run p hf sb re ext d 0 = Some (patch_init p hf sb re ext d)
   \<and> invasiveCover (patch_init p hf sb re ext d) = invasive_init p hf (fire_severity_init hf ext)
   \<and> ((\<forall>m t. run p hf sb re ext d m = Some t \<longrightarrow> 0 \<le> invasiveCover t \<and> invasiveCover t \<le> 100)
       = (0 \<le> invasive_init p hf (fire_severity_init hf ext)
          \<and> invasive_init p hf (fire_severity_init hf ext) \<le> 100))
   \<and> (max_trees p \<noteq> 0 \<longrightarrow> (\<exists>t. run p hf sb re ext d n = Some t))"
proof -
  let ?c = "invasive_init p hf (fire_severity_init hf ext)"
  have a: "run p hf sb re ext d (Suc n) = Some s \<longrightarrow> 0 \<le> invasiveCover s \<and> invasiveCover s \<le> 100"
    using run_Suc_cover_range [of p hf sb re ext d n s] by blast
  have b: "run p hf sb re ext d 0 = Some (patch_init p hf sb re ext d)" by simp
  have c: "invasiveCover (patch_init p hf sb re ext d) = ?c" by (rule patch_init_cover)
  have d1: "0 \<le> ?c \<and> ?c \<le> 100"
    if h: "\<forall>m t. run p hf sb re ext d m = Some t \<longrightarrow> 0 \<le> invasiveCover t \<and> invasiveCover t \<le> 100"
  proof -
    from h b have "0 \<le> invasiveCover (patch_init p hf sb re ext d)
        \<and> invasiveCover (patch_init p hf sb re ext d) \<le> 100" by blast
    then show ?thesis by (simp only: c)
  qed
  have d2: "0 \<le> invasiveCover t \<and> invasiveCover t \<le> 100"
    if h: "0 \<le> ?c \<and> ?c \<le> 100" and r: "run p hf sb re ext d m = Some t" for m t
  proof (cases m)
    case 0
    with r have "t = patch_init p hf sb re ext d" by simp
    with h c show ?thesis by simp
  next
    case (Suc k)
    with r show ?thesis using run_Suc_cover_range by blast
  qed
  have d: "(\<forall>m t. run p hf sb re ext d m = Some t \<longrightarrow> 0 \<le> invasiveCover t \<and> invasiveCover t \<le> 100)
       = (0 \<le> ?c \<and> ?c \<le> 100)"
    using d1 d2 by blast
  have e: "max_trees p \<noteq> 0 \<longrightarrow> (\<exists>t. run p hf sb re ext d n = Some t)"
    using run_total [of p hf sb re ext d n] by blast
  from a b c d e show ?thesis by (intro conjI)
qed

text \<open>
  The example parameters, fire at severity 0.95: the patch starts at the high-tier cover 60
  and is within [0, 100] after three steps.
\<close>

theorem invasive_cover_bounds_witness:
  "max_trees example_params \<noteq> 0
   \<and> invasiveCover (patch_init example_params True 0 12 (95 / 100) example_draws) = 60
   \<and> (\<exists>s. run example_params True 0 12 (95 / 100) example_draws (Suc 2) = Some s
          \<and> 0 \<le> invasiveCover s \<and> invasiveCover s \<le> 100)"
proof -
  have m: "max_trees example_params \<noteq> 0" by (rule example_max_trees)
  have i: "invasive_init example_params True (fire_severity_init True (95 / 100)) = 60"
    by (simp add: invasive_init_def fire_severity_init_def example_params_def)
  from invasive_cover_bounds [of example_params True 0 12 "95 / 100" example_draws "Suc 2" s] m
  obtain t where t: "run example_params True 0 12 (95 / 100) example_draws (Suc 2) = Some t"
    by blast
  from invasive_cover_bounds [of example_params True 0 12 "95 / 100" example_draws 2 t] t i
  have "invasiveCover (patch_init example_params True 0 12 (95 / 100) example_draws) = 60"
    and "0 \<le> invasiveCover t \<and> invasiveCover t \<le> 100"
    by simp_all
  with m t show ?thesis by blast
qed

subsection \<open>Scenarios without fire\<close>

text \<open>
  Claim C8, as stated, fails at one roll: the birth-time rule is
  \<^verbatim>\<open>alive.init = fireDeathRoll > fireMortality\<close> with a strict comparison, and the roll is
  drawn from 0 to 100, both ends named. Without fire the mortality is 0, and a roll of 0
  leaves the organism dead at creation: with every fire roll 0 the five initial trees of
  the baseline scenario are all dead.
\<close>

theorem no_fire_scenario_counterexample:
  "fireDeathRoll zero_roll_draws 0 = 0
   \<and> fire_mortality example_params False 0 Adult = 0
   \<and> \<not> alive (NativeTree_init example_params False 0 zero_roll_draws 0)
   \<and> map_option (\<lambda>s. map alive (NativeTree s))
        (run example_params False 0 0 0 zero_roll_draws 0)
       = Some [False, False, False, False, False]"
  by code_simp

text \<open>
  Claim C8, amended. With \<^verbatim>\<open>hasFire = false\<close> the fire severity of a patch is 0 initially
  and after every step, the fire mortality is 0 for every stage, a created organism is
  alive exactly when its fire roll is above 0 (of the rolls in [0, 100] only the roll 0
  kills), and the invasive cover starts at \<^verbatim>\<open>baselineInvasiveCover\<close>.
\<close>

theorem no_fire_scenario:
  "fire_severity_init False ext = 0
   \<and> (run p False sb re ext d n = Some s \<longrightarrow> fireSeverity s = 0)
   \<and> fire_mortality p False sev st = 0
   \<and> alive (NativeTree_init p False sev d i) = (0 < fireDeathRoll d i)
   \<and> {r. 0 \<le> r \<and> r \<le> 100 \<and> \<not> alive_init r (fire_mortality p False sev st)} = {0}
   \<and> invasive_init p False sev = of_int (baseline_invasive p)
   \<and> invasiveCover (patch_init p False sb re ext d) = of_int (baseline_invasive p)"
proof -
  have "run p False sb re ext d n = Some s \<longrightarrow> fireSeverity s = 0"
    using run_fireSeverity [of p False sb re ext d n s] by (simp add: fire_severity_init_def)
  moreover have "{r::real. 0 \<le> r \<and> r \<le> 100 \<and> \<not> alive_init r (fire_mortality p False sev st)} = {0}"
    by (auto simp: alive_init_def fire_mortality_def)
  ultimately show ?thesis
    by (simp add: fire_severity_init_def fire_mortality_def NativeTree_init_def Let_def
        alive_init_def invasive_init_def patch_init_def)
qed

text \<open>The baseline scenario on the example parameters, three steps.\<close>

theorem no_fire_scenario_witness:
  "\<exists>s. run example_params False 0 0 (95 / 100) example_draws 3 = Some s \<and> fireSeverity s = 0"
proof -
  obtain s where s: "run example_params False 0 0 (95 / 100) example_draws 3 = Some s"
    using run_total [OF example_max_trees] by blast
  with no_fire_scenario [of "95 / 100" example_params 0 0 example_draws 3 s]
  show ?thesis by simp
qed

subsection \<open>Life stages and death\<close>

lemma ident_NativeTree_step [simp]: "ident (NativeTree_step p c r og) = ident og"
  by (simp add: NativeTree_step_def Let_def)

lemma ident_NativeTree_init [simp]: "ident (NativeTree_init p hf sev d i) = i"
  by (simp add: NativeTree_init_def Let_def)

lemma idents_create: "map ident (create p hf sev d first k) = [first ..< first + nat k]"
  by (simp add: create_def comp_def map_idI)

lemma patch_step_idents:
  assumes "patch_step p hf d s = Some s'"
  shows "idents s' = map ident (NativeTree_start (NativeTree s))
                     @ [serial s ..< serial s + nat (newSeedlings s')]
         \<and> serial s' = serial s + nat (newSeedlings s')"
  using assms
  by (auto simp: patch_step_def Let_def idents_def idents_create comp_def split: option.splits)

lemma idents_start_subset:
  "set (map ident (NativeTree_start (NativeTree s))) \<subseteq> set (idents s)"
  by (auto simp: NativeTree_start_def idents_def)

lemma idents_fresh_init: "idents_fresh (patch_init p hf sb re ext d)"
  by (simp add: idents_fresh_def idents_def patch_init_def Let_def idents_create list_all_iff)

lemma idents_fresh_step:
  assumes "idents_fresh s" and "patch_step p hf d s = Some s'"
  shows "idents_fresh s'"
proof -
  from patch_step_idents [OF assms(2)]
  have ids: "idents s' = map ident (NativeTree_start (NativeTree s))
                     @ [serial s ..< serial s + nat (newSeedlings s')]"
    and ser: "serial s' = serial s + nat (newSeedlings s')" by simp_all
  have d: "distinct (map ident (NativeTree_start (NativeTree s)))"
    using assms(1) by (simp add: idents_fresh_def idents_def NativeTree_start_def distinct_map_filter)
  have lt: "\<forall>i \<in> set (map ident (NativeTree_start (NativeTree s))). i < serial s"
    using assms(1) idents_start_subset [of s] by (auto simp: idents_fresh_def list_all_iff)
  show ?thesis
    unfolding idents_fresh_def ids ser using d lt
    by (auto simp: list_all_iff)
qed

lemma idents_fresh_run:
  "run p hf sb re ext d n = Some s \<Longrightarrow> idents_fresh s"
proof (induction n arbitrary: s)
  case 0
  then show ?case using idents_fresh_init by auto
next
  case (Suc n)
  then show ?case by (auto split: option.splits intro: idents_fresh_step)
qed

lemma gone_step:
  assumes "gone i s" and "patch_step p hf d s = Some s'"
  shows "gone i s'"
  using assms patch_step_idents [OF assms(2)] idents_start_subset [of s]
  by (auto simp: gone_def)

lemma dead_not_living:
  assumes "idents_fresh s" and "og \<in> set (NativeTree s)" and "\<not> alive og"
  shows "ident og \<notin> set (map ident (NativeTree_start (NativeTree s)))"
proof
  assume "ident og \<in> set (map ident (NativeTree_start (NativeTree s)))"
  then obtain og' where og': "og' \<in> set (NativeTree s)" "alive og'" "ident og' = ident og"
    by (auto simp: NativeTree_start_def)
  have "inj_on ident (set (NativeTree s))"
    using assms(1) by (simp add: idents_fresh_def idents_def distinct_map)
  with og' assms(2) have "og' = og" by (auto dest: inj_onD)
  with og' assms(3) show False by simp
qed

lemma dead_gone_step:
  assumes "idents_fresh s" and "og \<in> set (NativeTree s)" and "\<not> alive og"
    and "patch_step p hf d s = Some s'"
  shows "gone (ident og) s'"
proof -
  have "ident og < serial s"
    using assms(1,2) by (auto simp: idents_fresh_def idents_def list_all_iff)
  then show ?thesis
    using dead_not_living [OF assms(1,2,3)] patch_step_idents [OF assms(4)]
    by (auto simp: gone_def)
qed

lemma run_add_Some:
  "run p hf sb re ext d (n + k) = Some s' \<Longrightarrow> \<exists>s. run p hf sb re ext d n = Some s"
  by (induction k arbitrary: s') (auto split: option.splits)

lemma dead_gone_run:
  assumes "run p hf sb re ext d n = Some s" and "og \<in> set (NativeTree s)" and "\<not> alive og"
  shows "run p hf sb re ext d (n + Suc k) = Some s' \<Longrightarrow> gone (ident og) s'"
proof (induction k arbitrary: s')
  case 0
  then have "patch_step p hf d s = Some s'" using assms(1) by simp
  then show ?case
    using dead_gone_step [OF idents_fresh_run [OF assms(1)] assms(2,3)] by blast
next
  case (Suc k)
  then obtain t where t: "run p hf sb re ext d (n + Suc k) = Some t"
    and st: "patch_step p hf d t = Some s'"
    by (auto split: option.splits)
  from Suc.IH [OF t] st show ?case by (rule gone_step)
qed

lemma dead_never_living:
  assumes "run p hf sb re ext d n = Some s" and "og \<in> set (NativeTree s)" and "\<not> alive og"
    and "n \<le> m" and "run p hf sb re ext d m = Some s'"
  shows "ident og \<notin> set (map ident (NativeTree_start (NativeTree s')))"
proof (cases "m = n")
  case True
  with assms(1,5) have "s' = s" by simp
  then show ?thesis
    using dead_not_living [OF idents_fresh_run [OF assms(1)] assms(2,3)] by simp
next
  case False
  with assms(4) have "m = n + Suc (m - n - 1)" by simp
  then obtain k where "m = n + Suc k" ..
  with assms(5) have "gone (ident og) s'"
    using dead_gone_run [OF assms(1,2,3)] by blast
  then show ?thesis using idents_start_subset [of s'] by (auto simp: gone_def)
qed

lemma state_step_forward:
  "state_step p st a al = st
   \<or> (al \<and> ((st = Seedling \<and> state_step p st a al = Juvenile)
          \<or> (st = Juvenile \<and> state_step p st a al = Adult)))"
  by (cases st) (auto simp: state_step_def)

lemma NativeTree_step_state:
  "state (NativeTree_step p c r og) = state_step p (state og) (age og + 1)
      (alive (NativeTree_step p c r og))"
  by (simp add: NativeTree_step_def Let_def)

text \<open>
  Claim C7. A step leaves an organism's stage unchanged or moves it one stage forward
  (Seedling to Juvenile, Juvenile to Adult), and moves it only when the organism is alive
  after the step's roll; the stage never goes back and Adult is kept. The living
  population of a step holds only organisms with \<^verbatim>\<open>alive = true\<close>, and an organism that is
  dead in the population after step \<open>n\<close> is in the living population of no later step.
\<close>

theorem stage_forward_death_absorbing:
  "(state (NativeTree_step p c r og) = state og
      \<or> (alive (NativeTree_step p c r og)
          \<and> ((state og = Seedling \<and> state (NativeTree_step p c r og) = Juvenile)
            \<or> (state og = Juvenile \<and> state (NativeTree_step p c r og) = Adult))))
   \<and> stage_rank (state og) \<le> stage_rank (state (NativeTree_step p c r og))
   \<and> (state og = Adult \<longrightarrow> state (NativeTree_step p c r og) = Adult)
   \<and> list_all alive (NativeTree_start trees)
   \<and> (\<not> alive og \<longrightarrow> og \<notin> set (NativeTree_start trees))
   \<and> (run p hf sb re ext d n = Some s \<and> og \<in> set (NativeTree s) \<and> \<not> alive og
        \<and> n \<le> m \<and> run p hf sb re ext d m = Some s'
      \<longrightarrow> ident og \<notin> set (map ident (NativeTree_start (NativeTree s'))))"
proof -
  have fw: "state (NativeTree_step p c r og) = state og
      \<or> (alive (NativeTree_step p c r og)
          \<and> ((state og = Seedling \<and> state (NativeTree_step p c r og) = Juvenile)
            \<or> (state og = Juvenile \<and> state (NativeTree_step p c r og) = Adult)))"
    unfolding NativeTree_step_state by (rule state_step_forward)
  then have rk: "stage_rank (state og) \<le> stage_rank (state (NativeTree_step p c r og))"
    by (auto simp: stage_rank_def)
  have ad: "state og = Adult \<longrightarrow> state (NativeTree_step p c r og) = Adult"
    using fw by auto
  have st: "list_all alive (NativeTree_start trees)"
    "\<not> alive og \<longrightarrow> og \<notin> set (NativeTree_start trees)"
    by (auto simp: NativeTree_start_def list_all_iff)
  have ab: "run p hf sb re ext d n = Some s \<and> og \<in> set (NativeTree s) \<and> \<not> alive og
        \<and> n \<le> m \<and> run p hf sb re ext d m = Some s'
      \<longrightarrow> ident og \<notin> set (map ident (NativeTree_start (NativeTree s')))"
  proof
    assume h: "run p hf sb re ext d n = Some s \<and> og \<in> set (NativeTree s) \<and> \<not> alive og
        \<and> n \<le> m \<and> run p hf sb re ext d m = Some s'"
    show "ident og \<notin> set (map ident (NativeTree_start (NativeTree s')))"
      by (rule dead_never_living [of p hf sb re ext d n s og m s']) (simp_all add: h)
  qed
  from fw rk ad st ab show ?thesis by (intro conjI)
qed

text \<open>
  The Seedling number 5 of the example, dead after step 1, is not in the living population
  that follows step 3.
\<close>

theorem stage_forward_death_absorbing_witness:
  "\<exists>s og s'. run example_params True 0 0 (95 / 100) example_draws 1 = Some s
      \<and> og \<in> set (NativeTree s) \<and> \<not> alive og \<and> ident og = 5
      \<and> run example_params True 0 0 (95 / 100) example_draws 3 = Some s'
      \<and> 5 \<notin> set (map ident (NativeTree_start (NativeTree s')))"
proof -
  let ?og = "\<lparr>ident = 5, age = 0, state = Seedling, alive = False\<rparr>"
  obtain s where s: "run example_params True 0 0 (95 / 100) example_draws 1 = Some s"
    and og: "?og \<in> set (NativeTree s)"
    using example_run_1 by auto
  obtain s' where s': "run example_params True 0 0 (95 / 100) example_draws 3 = Some s'"
    using run_total [OF example_max_trees] by blast
  have "ident ?og \<notin> set (map ident (NativeTree_start (NativeTree s')))"
    using stage_forward_death_absorbing
      [of example_params c r ?og trees True 0 0 "95 / 100" example_draws 1 s 3 s'] s og s'
    by simp
  then have "5 \<notin> set (map ident (NativeTree_start (NativeTree s')))" by simp
  with s og s' show ?thesis by (intro exI [of _ s] exI [of _ ?og] exI [of _ s']) simp
qed

subsection \<open>Organisms created by recruitment\<close>

lemma create_alive:
  "list_all (\<lambda>og. alive og = (fireDeathRoll d (ident og) > fire_mortality p hf sev (state og)))
     (create p hf sev d first k)"
  by (simp add: create_def list_all_iff NativeTree_init_def Let_def alive_init_def)

lemma actualNewSeedlings_nonneg: "0 \<le> actualNewSeedlings p numAdults numTrees cover"
  by (simp add: actualNewSeedlings_def)

lemma patch_step_newSeedlings_nonneg:
  "patch_step p hf d s = Some s' \<Longrightarrow> 0 \<le> newSeedlings s'"
  by (auto simp: patch_step_def Let_def actualNewSeedlings_nonneg split: option.splits)

lemma patch_step_newSeedlings:
  "patch_step p hf d s = Some s' \<Longrightarrow>
   newSeedlings s' =
     actualNewSeedlings p
       (count_state Adult (take (length (NativeTree_start (NativeTree s))) (NativeTree s')))
       (int (length (NativeTree_start (NativeTree s))))
       (invasiveCover s')"
  by (auto simp: patch_step_def Let_def split: option.splits)

lemma stepped_idents_old:
  assumes "idents_fresh s"
  shows "list_all (\<lambda>og. ident og < serial s)
     (map (\<lambda>og. NativeTree_step p c (r (ident og)) og) (NativeTree_start (NativeTree s)))"
  using assms idents_start_subset [of s]
  by (auto simp: idents_fresh_def list_all_iff)

lemma recruits_of_step:
  assumes "idents_fresh s" and "patch_step p hf d s = Some s'"
  shows "filter (\<lambda>og. serial s \<le> ident og) (NativeTree s')
       = create p hf (fireSeverity s) d (serial s) (newSeedlings s')"
proof -
  let ?stepped = "map (\<lambda>og. NativeTree_step p (invasiveCover s')
      (deathRoll d (stepCount s') (ident og)) og) (NativeTree_start (NativeTree s))"
  let ?new = "create p hf (fireSeverity s) d (serial s) (newSeedlings s')"
  have nt: "NativeTree s' = ?stepped @ ?new"
    by (rule patch_step_NativeTree [OF assms(2)])
  have old: "filter (\<lambda>og. serial s \<le> ident og) ?stepped = []"
    using stepped_idents_old [OF assms(1), of p "invasiveCover s'" "deathRoll d (stepCount s')"]
    by (auto simp: filter_empty_conv list_all_iff)
  have "\<forall>og \<in> set ?new. serial s \<le> ident og"
  proof
    fix og assume "og \<in> set ?new"
    then have "ident og \<in> set (map ident ?new)" by simp
    then show "serial s \<le> ident og" by (simp add: idents_create)
  qed
  then have new: "filter (\<lambda>og. serial s \<le> ident og) ?new = ?new"
    by (simp add: filter_id_conv)
  show ?thesis by (simp only: nt filter_append old new append_Nil)
qed

text \<open>
  Claim C1, as stated, fails: the organisms that \<^verbatim>\<open>NativeTree.end\<close> creates run the same
  \<^verbatim>\<open>.init\<close> rules as the initial trees, the fire roll among them. On the example
  parameters with fire at severity 0.95, five initial adults create five organisms in the
  first step (numbers 5 to 9). Number 5 draws age 0 and a fire roll of 50 against the
  high-tier Seedling mortality 95: it is a Seedling of age 0, dead at creation.
\<close>

theorem recruits_face_fire_roll_counterexample:
  "\<exists>s. run example_params True 0 0 (95 / 100) example_draws 1 = Some s
       \<and> newSeedlings s = 5
       \<and> length (NativeTree s) = 10
       \<and> NativeTree s ! 5 = \<lparr>ident = 5, age = 0, state = Seedling, alive = False\<rparr>"
  using example_run_1 by auto

text \<open>
  Claim C1, amended. The organisms created by recruitment in a step are those of the
  resulting population that bear an identity not issued before the step; there are as
  many as the step's \<^verbatim>\<open>actualNewSeedlings\<close>, read on the stepped living population. Each is subjected to the birth-time fire roll: it is alive at
  creation exactly when its fire roll exceeds the fire mortality of its patch's severity
  and its own stage; without fire, exactly when its roll is above 0. The age of a created
  organism is left open here.
\<close>

theorem recruits_face_fire_roll:
  "(run p hf sb re ext d n = Some s \<and> run p hf sb re ext d (Suc n) = Some s'
      \<and> og \<in> set (NativeTree s') \<and> serial s \<le> ident og
    \<longrightarrow> alive og = (fireDeathRoll d (ident og)
                       > fire_mortality p hf (fire_severity_init hf ext) (state og))
       \<and> (\<not> hf \<longrightarrow> alive og = (0 < fireDeathRoll d (ident og))))
   \<and> (run p hf sb re ext d n = Some s \<and> run p hf sb re ext d (Suc n) = Some s'
    \<longrightarrow> int (length (filter (\<lambda>og. serial s \<le> ident og) (NativeTree s'))) = newSeedlings s'
       \<and> newSeedlings s' =
           actualNewSeedlings p
             (count_state Adult (take (length (NativeTree_start (NativeTree s))) (NativeTree s')))
             (int (length (NativeTree_start (NativeTree s))))
             (invasiveCover s'))"
proof -
  have main: "filter (\<lambda>og. serial s \<le> ident og) (NativeTree s')
       = create p hf (fire_severity_init hf ext) d (serial s) (newSeedlings s')
     \<and> 0 \<le> newSeedlings s'"
    if r: "run p hf sb re ext d n = Some s" and r': "run p hf sb re ext d (Suc n) = Some s'"
  proof -
    from r r' have st: "patch_step p hf d s = Some s'" by simp
    from recruits_of_step [OF idents_fresh_run [OF r] st] run_fireSeverity [OF r]
      patch_step_newSeedlings_nonneg [OF st]
    show ?thesis by simp
  qed
  have a: "alive og = (fireDeathRoll d (ident og)
                       > fire_mortality p hf (fire_severity_init hf ext) (state og))
       \<and> (\<not> hf \<longrightarrow> alive og = (0 < fireDeathRoll d (ident og)))"
    if r: "run p hf sb re ext d n = Some s" and r': "run p hf sb re ext d (Suc n) = Some s'"
      and m: "og \<in> set (NativeTree s')" and f: "serial s \<le> ident og"
  proof -
    from m f have "og \<in> set (filter (\<lambda>og. serial s \<le> ident og) (NativeTree s'))" by simp
    with main [OF r r']
    have "og \<in> set (create p hf (fire_severity_init hf ext) d (serial s) (newSeedlings s'))"
      by simp
    with create_alive [of p hf "fire_severity_init hf ext" d "serial s" "newSeedlings s'"]
    have al: "alive og = (fireDeathRoll d (ident og)
                       > fire_mortality p hf (fire_severity_init hf ext) (state og))"
      by (simp add: list_all_iff)
    then show ?thesis by (auto simp: fire_mortality_def)
  qed
  have b: "int (length (filter (\<lambda>og. serial s \<le> ident og) (NativeTree s'))) = newSeedlings s'"
    if r: "run p hf sb re ext d n = Some s" and r': "run p hf sb re ext d (Suc n) = Some s'"
    using main [OF r r'] by (simp add: create_def)
  have c: "newSeedlings s' =
           actualNewSeedlings p
             (count_state Adult (take (length (NativeTree_start (NativeTree s))) (NativeTree s')))
             (int (length (NativeTree_start (NativeTree s))))
             (invasiveCover s')"
    if r: "run p hf sb re ext d n = Some s" and r': "run p hf sb re ext d (Suc n) = Some s'"
  proof -
    from r r' have "patch_step p hf d s = Some s'" by simp
    then show ?thesis by (rule patch_step_newSeedlings)
  qed
  from a b c show ?thesis by blast
qed

text \<open>
  The first step of the example: organism number 5, created in that step, is dead because
  its roll of 50 does not exceed the mortality of its tier and stage; five organisms were
  created.
\<close>

theorem recruits_face_fire_roll_witness:
  "\<exists>s s' og. run example_params True 0 0 (95 / 100) example_draws 0 = Some s
      \<and> run example_params True 0 0 (95 / 100) example_draws (Suc 0) = Some s'
      \<and> og \<in> set (NativeTree s') \<and> serial s \<le> ident og \<and> ident og = 5
      \<and> alive og = (fireDeathRoll example_draws 5
            > fire_mortality example_params True (fire_severity_init True (95 / 100)) (state og))
      \<and> int (length (filter (\<lambda>og. serial s \<le> ident og) (NativeTree s'))) = newSeedlings s'"
proof -
  let ?s = "patch_init example_params True 0 0 (95 / 100) example_draws"
  let ?og = "\<lparr>ident = 5, age = 0, state = Seedling, alive = False\<rparr>"
  have s: "run example_params True 0 0 (95 / 100) example_draws 0 = Some ?s" by simp
  obtain s' where s': "run example_params True 0 0 (95 / 100) example_draws (Suc 0) = Some s'"
    and og: "?og \<in> set (NativeTree s')"
    using example_run_1 by auto
  have f: "serial ?s \<le> ident ?og"
    by (simp add: patch_init_def Let_def example_params_def)
  from recruits_face_fire_roll
    [of example_params True 0 0 "95 / 100" example_draws 0 ?s s' ?og] s s' og f
  have "alive ?og = (fireDeathRoll example_draws (ident ?og)
            > fire_mortality example_params True (fire_severity_init True (95 / 100)) (state ?og))"
    and "int (length (filter (\<lambda>og. serial ?s \<le> ident og) (NativeTree s'))) = newSeedlings s'"
    by blast+
  then have "alive ?og = (fireDeathRoll example_draws 5
            > fire_mortality example_params True (fire_severity_init True (95 / 100)) (state ?og))
      \<and> int (length (filter (\<lambda>og. serial ?s \<le> ident og) (NativeTree s'))) = newSeedlings s'"
    by simp
  with s s' og f show ?thesis
    by (intro exI [of _ ?s] exI [of _ s'] exI [of _ ?og]) simp
qed

subsection \<open>The parameter parser and missing keys\<close>

lemma bind_result_Inr:
  "bind_result r f = Inr y \<Longrightarrow> \<exists>x. r = Inr x \<and> f x = Inr y"
  by (cases r) (simp_all add: bind_result_def)

lemma param_value_Inr: "param_value ps k = Inr v \<Longrightarrow> ps k \<noteq> None"
  by (auto simp: param_value_def split: option.splits)

lemma param_int_Inr: "param_int ps k = Inr v \<Longrightarrow> ps k \<noteq> None"
  by (auto simp: param_int_def dest!: bind_result_Inr param_value_Inr)

lemma param_value_Inl: "param_value ps k = Inl e \<Longrightarrow> e = KeyError k \<and> ps k = None"
  by (auto simp: param_value_def split: option.splits)

lemma param_int_Inl: "param_int ps k = Inl e \<Longrightarrow> e = KeyError k \<and> ps k = None"
  by (auto simp: param_int_def bind_result_def param_value_def split: option.splits sum.splits)




lemma bind_param_intE:
  assumes "bind_result (param_int ps k) f = Inr p"
  obtains v where "ps k \<noteq> None" and "f v = Inr p"
  using assms by (auto dest!: bind_result_Inr dest: param_int_Inr)

lemma bind_param_valueE:
  assumes "bind_result (param_value ps k) f = Inr p"
  obtains v where "ps k \<noteq> None" and "f v = Inr p"
  using assms by (auto dest!: bind_result_Inr dest: param_value_Inr)

lemma extract_params_Inr:
  assumes "extract_params ps = Inr p"
  shows "list_all (\<lambda>k. ps k \<noteq> None) required_keys"
  using assms unfolding extract_params_def required_keys_def
  apply (elim bind_param_intE bind_param_valueE)
  apply simp
  done

lemma key_failureI: "k \<in> set required_keys \<Longrightarrow> ps k = None \<Longrightarrow> key_failure ps (KeyError k)"
  by (auto simp: key_failure_def list_ex_iff)

lemma bind_param_int_Inl:
  assumes "bind_result (param_int ps k) f = Inl e" and "k \<in> set required_keys"
    and "\<And>v. f v = Inl e \<Longrightarrow> key_failure ps e"
  shows "key_failure ps e"
proof (cases "param_int ps k")
  case (Inl a)
  with assms(1) have "a = e" by (simp add: bind_result_def)
  with Inl param_int_Inl [of ps k e] assms(2) show ?thesis by (auto intro: key_failureI)
next
  case (Inr v)
  with assms(1) have "f v = Inl e" by (simp add: bind_result_def)
  then show ?thesis by (rule assms(3))
qed

lemma bind_param_value_Inl:
  assumes "bind_result (param_value ps k) f = Inl e" and "k \<in> set required_keys"
    and "\<And>v. f v = Inl e \<Longrightarrow> key_failure ps e"
  shows "key_failure ps e"
proof (cases "param_value ps k")
  case (Inl a)
  with assms(1) have "a = e" by (simp add: bind_result_def)
  with Inl param_value_Inl [of ps k e] assms(2) show ?thesis by (auto intro: key_failureI)
next
  case (Inr v)
  with assms(1) have "f v = Inl e" by (simp add: bind_result_def)
  then show ?thesis by (rule assms(3))
qed

lemma required_keys_mem:
  "k \<in> set required_keys \<longleftrightarrow> list_ex (\<lambda>k'. k = k') required_keys"
  by (simp add: list_ex_iff)

lemma extract_params_Inl:
  assumes "extract_params ps = Inl e"
  shows "key_failure ps e"
  using assms unfolding extract_params_def
  apply -
  apply (erule bind_param_int_Inl bind_param_value_Inl, simp add: required_keys_def)+
  apply simp
  done

lemma py_float_nonneg: "py_float t = Inr v \<Longrightarrow> 0 \<le> v"
  by (auto simp: py_float_def Let_def split: if_splits)

lemma match_value_Some:
  "match_value v = Some (g1, g2) \<Longrightarrow> v \<noteq> [] \<and> is_numch (hd v)"
  by (cases v) (auto simp: match_value_def split: if_splits)

lemma match_value_None:
  "v = [] \<or> \<not> is_numch (hd v) \<Longrightarrow> match_value v = None"
  by (cases v) (auto simp: match_value_def)

lemma parse_line_unchanged:
  "value_text (line_text raw) = [] \<or> \<not> is_numch (hd (value_text (line_text raw)))
   \<Longrightarrow> parse_line ps raw = Inr ps"
  by (simp add: parse_line_def Let_def match_value_None)

lemma parse_line_recorded:
  assumes "parse_line ps raw = Inr ps'" and "ps' k \<noteq> ps k"
  shows "k = key_text (line_text raw)
       \<and> value_text (line_text raw) \<noteq> [] \<and> is_numch (hd (value_text (line_text raw)))
       \<and> (\<exists>v u. ps' k = Some (v, u) \<and> 0 \<le> v)"
proof -
  let ?line = "line_text raw"
  from assms have eq: "CHR ''='' \<in> set ?line"
    by (auto simp: parse_line_def Let_def split: if_splits)
  from assms eq obtain g1 g2 where m: "match_value (value_text ?line) = Some (g1, g2)"
    by (cases "match_value (value_text ?line)") (auto simp: parse_line_def Let_def)
  from assms(1) eq m obtain num where f: "py_float g1 = Inr num"
    and ps': "ps' = ps (key_text ?line \<mapsto> (num, g2))"
    by (cases "py_float g1") (auto simp: parse_line_def Let_def bind_result_def)
  from ps' assms(2) have k: "k = key_text ?line" by (auto split: if_splits)
  with ps' have "ps' k = Some (num, g2)" by simp
  with py_float_nonneg [OF f] k match_value_Some [OF m] show ?thesis by blast
qed

lemma parse_line_nonneg:
  assumes "nonneg_dict ps" and "parse_line ps raw = Inr ps'"
  shows "nonneg_dict ps'"
  unfolding nonneg_dict_def
proof (intro allI impI)
  fix k v u assume s: "ps' k = Some (v, u)"
  show "0 \<le> v"
  proof (cases "ps' k = ps k")
    case True
    with s assms(1) show ?thesis by (auto simp: nonneg_dict_def)
  next
    case False
    from parse_line_recorded [OF assms(2) False] s show ?thesis by auto
  qed
qed

lemma parse_lines_nonneg:
  "nonneg_dict ps \<Longrightarrow> parse_lines ps lines = Inr ps' \<Longrightarrow> nonneg_dict ps'"
proof (induction lines arbitrary: ps)
  case Nil
  then show ?case by simp
next
  case (Cons raw rest)
  from Cons.prems(2) obtain ps1 where a: "parse_line ps raw = Inr ps1"
    and b: "parse_lines ps1 rest = Inr ps'"
    by (auto dest: bind_result_Inr)
  from Cons.IH [OF parse_line_nonneg [OF Cons.prems(1) a] b] show ?case .
qed

lemma parse_jshc_nonneg:
  "parse_jshc lines = Inr ps' \<Longrightarrow> ps' k = Some (v, u) \<Longrightarrow> 0 \<le> v"
  using parse_lines_nonneg [of Map.empty lines ps']
  by (auto simp: parse_jshc_def nonneg_dict_def)

lemma generate_model_missing:
  assumes "k \<in> set required_keys" and "ps k = None"
  shows "\<exists>k'. k' \<in> set required_keys \<and> ps k' = None
            \<and> generate_model name hf sb re ps = Inl (KeyError k')"
proof (cases "extract_params ps")
  case (Inl e)
  from extract_params_Inl [OF Inl] obtain k' where "k' \<in> set required_keys"
    "e = KeyError k'" "ps k' = None"
    by (auto simp: key_failure_def list_ex_iff)
  with Inl show ?thesis by (auto simp: generate_model_def bind_result_def)
next
  case (Inr p)
  from extract_params_Inr [OF Inr] assms show ?thesis by (auto simp: list_all_iff)
qed

lemma generate_model_first_key:
  "ps ''totalSteps'' = None \<Longrightarrow>
   generate_model name hf sb re ps = Inl (KeyError ''totalSteps'')"
  by (simp add: generate_model_def extract_params_def param_int_def param_value_def
      bind_result_def)

text \<open>
  Claim C10. A line changes the dictionary at a key only when that key is the line's key
  and the value text begins with a digit or a dot, and the stored number is then
  non-negative; a line whose value text is empty or begins otherwise leaves the
  dictionary as it is and raises nothing; every value of a parsed file is non-negative;
  the line \<^verbatim>\<open>x = -5\<close> alone parses to the empty dictionary; and a required key that is
  missing makes \<^verbatim>\<open>generate_model\<close> raise \<^verbatim>\<open>KeyError\<close> for a missing required key (for
  \<^verbatim>\<open>totalSteps\<close>, the first lookup, whenever that one is missing).
\<close>

theorem parser_omits_non_numeric_values:
  "(parse_line ps raw = Inr ps' \<and> ps' k \<noteq> ps k \<longrightarrow>
      k = key_text (line_text raw)
      \<and> value_text (line_text raw) \<noteq> [] \<and> is_numch (hd (value_text (line_text raw)))
      \<and> (\<exists>v u. ps' k = Some (v, u) \<and> 0 \<le> v))
   \<and> (value_text (line_text raw) = [] \<or> \<not> is_numch (hd (value_text (line_text raw)))
        \<longrightarrow> parse_line ps raw = Inr ps)
   \<and> (parse_jshc lines = Inr ps' \<and> ps' k = Some (v, u) \<longrightarrow> 0 \<le> v)
   \<and> parse_jshc [''x = -5''] = Inr Map.empty
   \<and> (k \<in> set required_keys \<and> ps k = None \<longrightarrow>
        (\<exists>k'. k' \<in> set required_keys \<and> ps k' = None
            \<and> generate_model name hf sb re ps = Inl (KeyError k')))
   \<and> (ps ''totalSteps'' = None \<longrightarrow>
        generate_model name hf sb re ps = Inl (KeyError ''totalSteps''))"
proof -
  have x: "parse_jshc [''x = -5''] = Inr Map.empty"
  proof -
    have "\<not> is_numch (hd (value_text (line_text ''x = -5'')))" by code_simp
    then have "parse_line Map.empty ''x = -5'' = Inr Map.empty"
      using parse_line_unchanged by blast
    then show ?thesis by (simp add: parse_jshc_def bind_result_def)
  qed
  show ?thesis
    using parse_line_recorded [of ps raw ps' k] parse_line_unchanged [of raw ps]
      parse_jshc_nonneg [of lines ps' k v u] x generate_model_missing [of k ps name hf sb re]
      generate_model_first_key [of ps name hf sb re]
    by blast
qed

text \<open>
  The line \<^verbatim>\<open>totalSteps = -5\<close> is omitted from the empty dictionary without an error, and
  generating the baseline model from it raises \<^verbatim>\<open>KeyError\<close> for \<^verbatim>\<open>totalSteps\<close>.
\<close>

theorem parser_omits_non_numeric_values_witness:
  "\<not> is_numch (hd (value_text (line_text ''totalSteps = -5'')))
   \<and> parse_line Map.empty ''totalSteps = -5'' = Inr Map.empty
   \<and> generate_model ''baseline'' False 0 0 Map.empty = Inl (KeyError ''totalSteps'')"
proof -
  have h: "\<not> is_numch (hd (value_text (line_text ''totalSteps = -5'')))" by code_simp
  have e: "(Map.empty :: param_dict) ''totalSteps'' = None" by simp
  from parser_omits_non_numeric_values
    [of Map.empty "''totalSteps = -5''" Map.empty "''totalSteps''" "[]" 0 "[]"
        "''baseline''" False 0 0] h e
  show ?thesis by blast
qed

subsection \<open>Aggregation of the scenario files\<close>






















end
